theory Spec2Isabelle
  imports Complex_Main "HOL-Library.AList"
begin

section \<open>The four-phase playlist cover changer (cover-change.py)\<close>

text \<open>
  A shallow embedding of the solar-phase scheduler of \<^verbatim>\<open>cover-change.py\<close>.
  Every reading of the clock, every answer of the remote services and every outcome of
  a file operation is an explicit argument of the function that performs it; every raise of
  the source is an \<open>Inl\<close> result.
\<close>

subsection \<open>Exceptions\<close>

datatype error =
  KeyError | ValueError | TypeError | AttributeError | IndexError | OverflowError
  | RequestError | JSONDecodeError

subsection \<open>Dates, times and time zones\<close>

text \<open>
  A \<^verbatim>\<open>timedelta\<close> is a whole number of microseconds, a \<^verbatim>\<open>date\<close> a day number,
  a \<^verbatim>\<open>time\<close> the microseconds since midnight, and a naive \<^verbatim>\<open>datetime\<close> the
  microseconds of its calendar fields since day 0, which is 1 January of year 1; the last
  day of year 9999 is day 3652058.
\<close>

type_synonym timedelta = int
type_synonym date = int
type_synonym time = int
type_synonym naive = int

definition DAY :: timedelta where
  "DAY = 86400000000"

definition HOUR :: timedelta where
  "HOUR = 3600000000"

definition MINUTE :: timedelta where
  "MINUTE = 60000000"

definition timedelta_days :: "int \<Rightarrow> timedelta" where
  "timedelta_days n = n * DAY"

text \<open>
  A Python float: not a number, an infinity, or a finite value, which is a rational
  number. The settings read with \<^verbatim>\<open>float(os.getenv(...))\<close> are such values.
\<close>

datatype pyfloat = Finite rat | PosInf | NegInf | NaN

text \<open>Rounding to the nearest integer, a tie going to the even one.\<close>

definition round_half_even :: "rat \<Rightarrow> int" where
  "round_half_even x =
     (let f = \<lfloor>x\<rfloor>; r = x - of_int f
      in if r < 1 / 2 then f
         else if 1 / 2 < r then f + 1
         else if even f then f else f + 1)"

text \<open>
  \<^verbatim>\<open>datetime.timedelta(hours=x)\<close> for a float \<open>x\<close>: ValueError for not a number,
  OverflowError for an infinity and for more than 999999999 days either way, otherwise the
  hours rounded to a whole number of microseconds (the product is taken exactly).
\<close>

definition timedelta_hours :: "pyfloat \<Rightarrow> error + timedelta" where
  "timedelta_hours x =
     (case x of
        NaN \<Rightarrow> Inl ValueError
      | PosInf \<Rightarrow> Inl OverflowError
      | NegInf \<Rightarrow> Inl OverflowError
      | Finite h \<Rightarrow>
          (let us = round_half_even (h * 3600000000)
           in if - (999999999 * DAY) \<le> us \<and> us < 1000000000 * DAY
              then Inr us else Inl OverflowError))"

text \<open>The calendar fields a \<^verbatim>\<open>datetime\<close> can hold: years 1 to 9999.\<close>

definition in_range :: "naive \<Rightarrow> bool" where
  "in_range w = (0 \<le> w \<and> w < 3652059 * DAY)"

text \<open>\<^verbatim>\<open>datetime.time(hours, minutes)\<close> raises ValueError outside 0..23 and 0..59.\<close>

definition mk_time :: "int \<Rightarrow> int \<Rightarrow> error + time" where
  "mk_time hours minutes =
     (if 0 \<le> hours \<and> hours < 24 \<and> 0 \<le> minutes \<and> minutes < 60
      then Inr (hours * HOUR + minutes * MINUTE) else Inl ValueError)"

definition combine :: "date \<Rightarrow> time \<Rightarrow> naive" where
  "combine d t = d * DAY + t"

definition date_of :: "naive \<Rightarrow> date" where
  "date_of w = w div DAY"

definition time_of :: "naive \<Rightarrow> time" where
  "time_of w = w mod DAY"

text \<open>
  An aware datetime carries its calendar fields and the offset from UTC of its
  \<^verbatim>\<open>tzinfo\<close>. Every \<^verbatim>\<open>tzinfo\<close> of the program is a fixed-offset
  \<^verbatim>\<open>datetime.timezone\<close> (from \<^verbatim>\<open>astimezone()\<close> or \<^verbatim>\<open>fromisoformat\<close>), so two
  aware datetimes compare by their UTC instants, and adding a \<^verbatim>\<open>timedelta\<close> moves the
  calendar fields and keeps the offset.
\<close>

record aware =
  wall :: naive
  utcoffset :: timedelta

datatype datetime = Naive naive | Aware aware

definition utc :: "aware \<Rightarrow> int" where
  "utc a = wall a - utcoffset a"

definition dt_lt :: "aware \<Rightarrow> aware \<Rightarrow> bool" where
  "dt_lt a b = (utc a < utc b)"

definition dt_le :: "aware \<Rightarrow> aware \<Rightarrow> bool" where
  "dt_le a b = (utc a \<le> utc b)"

text \<open>
  The sum and the difference of an aware datetime and a \<^verbatim>\<open>timedelta\<close>, on the calendar
  fields. \<^verbatim>\<open>dt + delta\<close> and \<^verbatim>\<open>dt - delta\<close> raise OverflowError when the result
  leaves the years 1 to 9999. The check is written where a configured number of hours is
  added or subtracted; the clock readings and the datetimes a whole day away from them are
  taken to lie inside the range.
\<close>

definition dt_add :: "aware \<Rightarrow> timedelta \<Rightarrow> aware" where
  "dt_add a d = a\<lparr>wall := wall a + d\<rparr>"

definition dt_sub :: "aware \<Rightarrow> timedelta \<Rightarrow> aware" where
  "dt_sub a d = a\<lparr>wall := wall a - d\<rparr>"

definition add_timedelta :: "aware \<Rightarrow> timedelta \<Rightarrow> error + aware" where
  "add_timedelta a d = (if in_range (wall a + d) then Inr (dt_add a d) else Inl OverflowError)"

definition sub_timedelta :: "aware \<Rightarrow> timedelta \<Rightarrow> error + aware" where
  "sub_timedelta a d = (if in_range (wall a - d) then Inr (dt_sub a d) else Inl OverflowError)"

definition replace_tzinfo :: "naive \<Rightarrow> timedelta \<Rightarrow> aware" where
  "replace_tzinfo w off = \<lparr>wall = w, utcoffset = off\<rparr>"

text \<open>
  \<^verbatim>\<open>dt.astimezone()\<close> on a naive datetime reads it as system local time; the offset the
  system gives to a local calendar time is the function \<open>tzlocal\<close>.
\<close>

definition astimezone_local :: "(naive \<Rightarrow> timedelta) \<Rightarrow> datetime \<Rightarrow> aware" where
  "astimezone_local tzlocal dt =
     (case dt of
        Naive w \<Rightarrow> \<lparr>wall = w, utcoffset = tzlocal w\<rparr>
      | Aware a \<Rightarrow> \<lparr>wall = utc a + tzlocal (wall a), utcoffset = tzlocal (wall a)\<rparr>)"

text \<open>\<^verbatim>\<open>dt.astimezone(tz)\<close> for a fixed-offset \<open>tz\<close>: the same instant, shown in \<open>tz\<close>.\<close>

definition astimezone :: "(naive \<Rightarrow> timedelta) \<Rightarrow> datetime \<Rightarrow> timedelta \<Rightarrow> aware" where
  "astimezone tzlocal dt off =
     (case dt of
        Naive w \<Rightarrow> \<lparr>wall = w - tzlocal w + off, utcoffset = off\<rparr>
      | Aware a \<Rightarrow> \<lparr>wall = utc a + off, utcoffset = off\<rparr>)"

definition ensure_timezone_aware :: "(naive \<Rightarrow> timedelta) \<Rightarrow> datetime \<Rightarrow> aware" where
  "ensure_timezone_aware tzlocal dt =
     (case dt of
        Naive w \<Rightarrow> astimezone_local tzlocal (Naive w)
      | Aware a \<Rightarrow> a)"

subsection \<open>Strings: split, strip, int\<close>

text \<open>
  Strings are ASCII. \<^verbatim>\<open>strip()\<close> drops the characters of codes 9 to 13 and 28 to
  32 at both ends; \<^verbatim>\<open>int()\<close> allows only those of codes 9 to 13 and 32 around the
  number.
\<close>

fun split :: "char \<Rightarrow> string \<Rightarrow> string list" where
  "split sep [] = [[]]"
| "split sep (c # cs) =
     (if c = sep then [] # split sep cs
      else (case split sep cs of
              [] \<Rightarrow> [[c]]
            | w # ws \<Rightarrow> (c # w) # ws))"

definition is_space :: "char \<Rightarrow> bool" where
  "is_space c = (let n = (of_char c :: nat) in (9 \<le> n \<and> n \<le> 13) \<or> (28 \<le> n \<and> n \<le> 32))"

definition strip :: "string \<Rightarrow> string" where
  "strip s = rev (dropWhile is_space (rev (dropWhile is_space s)))"

definition is_int_space :: "char \<Rightarrow> bool" where
  "is_int_space c = (let n = (of_char c :: nat) in (9 \<le> n \<and> n \<le> 13) \<or> n = 32)"

definition int_strip :: "string \<Rightarrow> string" where
  "int_strip s = rev (dropWhile is_int_space (rev (dropWhile is_int_space s)))"

definition is_digit :: "char \<Rightarrow> bool" where
  "is_digit c = (let n = (of_char c :: nat) in 48 \<le> n \<and> n \<le> 57)"

definition digit_val :: "char \<Rightarrow> int" where
  "digit_val c = int (of_char c) - 48"

text \<open>
  Decimal digits, a single underscore allowed between two digits, as \<^verbatim>\<open>int()\<close> reads
  them; \<open>None\<close> is the ValueError.
\<close>

fun parse_digits :: "int \<Rightarrow> string \<Rightarrow> int option" where
  "parse_digits acc [] = None"
| "parse_digits acc [c] = (if is_digit c then Some (acc * 10 + digit_val c) else None)"
| "parse_digits acc (c # d # cs) =
     (if \<not> is_digit c then None
      else if d = CHR ''_'' then parse_digits (acc * 10 + digit_val c) cs
      else parse_digits (acc * 10 + digit_val c) (d # cs))"

definition int_py :: "string \<Rightarrow> error + int" where
  "int_py s =
     (case int_strip s of
        [] \<Rightarrow> Inl ValueError
      | c # cs \<Rightarrow>
          (if c = CHR ''-'' then
             (case parse_digits 0 cs of None \<Rightarrow> Inl ValueError | Some n \<Rightarrow> Inr (- n))
           else if c = CHR ''+'' then
             (case parse_digits 0 cs of None \<Rightarrow> Inl ValueError | Some n \<Rightarrow> Inr n)
           else
             (case parse_digits 0 (c # cs) of None \<Rightarrow> Inl ValueError | Some n \<Rightarrow> Inr n)))"

text \<open>
  \<^verbatim>\<open>hours, minutes = map(int, time_str.split(':'))\<close>: exactly two fields, both integers,
  or ValueError.
\<close>

definition parse_hm :: "string \<Rightarrow> error + (int \<times> int)" where
  "parse_hm time_str =
     (case split CHR '':'' time_str of
        [a, b] \<Rightarrow>
          (case int_py a of
             Inl e \<Rightarrow> Inl e
           | Inr hours \<Rightarrow>
               (case int_py b of
                  Inl e \<Rightarrow> Inl e
                | Inr minutes \<Rightarrow> Inr (hours, minutes)))
      | _ \<Rightarrow> Inl ValueError)"

subsection \<open>Dictionaries and JSON values\<close>

type_synonym 'v dict = "(string \<times> 'v) list"

definition getitem :: "'v dict \<Rightarrow> string \<Rightarrow> error + 'v" where
  "getitem d k = (case map_of d k of None \<Rightarrow> Inl KeyError | Some v \<Rightarrow> Inr v)"

text \<open>\<^verbatim>\<open>{p: f(t) for p, t in d.items()}\<close>\<close>

definition dict_map_values :: "('a \<Rightarrow> 'b) \<Rightarrow> 'a dict \<Rightarrow> 'b dict" where
  "dict_map_values f d = map (\<lambda>(k, v). (k, f v)) d"

text \<open>The same when \<open>f\<close> can raise: the first raise ends the loop.\<close>

fun dict_map_values_err :: "('a \<Rightarrow> error + 'b) \<Rightarrow> 'a dict \<Rightarrow> error + 'b dict" where
  "dict_map_values_err f [] = Inr []"
| "dict_map_values_err f ((k, v) # rest) =
     (case f v of
        Inl e \<Rightarrow> Inl e
      | Inr v' \<Rightarrow>
          (case dict_map_values_err f rest of
             Inl e \<Rightarrow> Inl e
           | Inr rest' \<Rightarrow> Inr ((k, v') # rest')))"

text \<open>
  A parsed JSON document; a number is an integer or a float.
\<close>

datatype json =
  JNull | JBool bool | JNum int | JFloat pyfloat | JStr string | JArr "json list"
  | JObj "(string \<times> json) list"

text \<open>\<^verbatim>\<open>data[key]\<close> with a string key: KeyError on an object without the key, TypeError
  on every other JSON value.\<close>

definition json_getitem :: "json \<Rightarrow> string \<Rightarrow> error + json" where
  "json_getitem j k =
     (case j of
        JObj kvs \<Rightarrow> (case map_of kvs k of None \<Rightarrow> Inl KeyError | Some v \<Rightarrow> Inr v)
      | _ \<Rightarrow> Inl TypeError)"

text \<open>\<^verbatim>\<open>s.replace('Z', '+00:00')\<close>; AttributeError or TypeError when \<open>s\<close> is not a string.\<close>

definition replace_Z :: "json \<Rightarrow> error + string" where
  "replace_Z j =
     (case j of
        JStr s \<Rightarrow> Inr (concat (map (\<lambda>c. if c = CHR ''Z'' then ''+00:00'' else [c]) s))
      | JNull \<Rightarrow> Inl AttributeError
      | JBool b \<Rightarrow> Inl AttributeError
      | JNum n \<Rightarrow> Inl AttributeError
      | JFloat x \<Rightarrow> Inl AttributeError
      | JArr xs \<Rightarrow> Inl AttributeError
      | JObj kvs \<Rightarrow> Inl AttributeError)"

subsection \<open>Configuration\<close>

text \<open>
  The module-level settings. \<open>MORNING_DURATION\<close>, \<open>EVENING_DURATION\<close> and
  \<open>TIME_OFFSET\<close> are floats, numbers of hours.
  \<open>DEBUG_TIMES\<close> is \<open>None\<close> or a dictionary from phase names to naive datetimes.
\<close>

record config =
  PLAYLIST_ID :: string
  MORNING_IMAGE_PATH :: string
  DAY_IMAGE_PATH :: string
  EVENING_IMAGE_PATH :: string
  NIGHT_IMAGE_PATH :: string
  MORNING_DURATION :: pyfloat
  EVENING_DURATION :: pyfloat
  TIME_OFFSET :: pyfloat
  DEBUG_MODE :: bool
  DEBUG_TIMES :: "datetime dict option"

definition phases :: "string list" where
  "phases = [''morning'', ''day'', ''evening'', ''night'']"

text \<open>Truth value of \<^verbatim>\<open>DEBUG_MODE and DEBUG_TIMES\<close>: a dictionary is true when not empty.\<close>

definition debug_active :: "config \<Rightarrow> bool" where
  "debug_active cfg =
     (DEBUG_MODE cfg \<and> (case DEBUG_TIMES cfg of None \<Rightarrow> False | Some d \<Rightarrow> d \<noteq> []))"

definition debug_items :: "config \<Rightarrow> datetime dict" where
  "debug_items cfg = (case DEBUG_TIMES cfg of None \<Rightarrow> [] | Some d \<Rightarrow> d)"

subsection \<open>Sunrise and sunset (get\_sun\_times)\<close>

text \<open>
  What \<^verbatim>\<open>requests.get(url)\<close> followed by \<^verbatim>\<open>response.json()\<close> can give: the request
  raises, or a response arrives with a status code and a body that is JSON or is not.
  A request that never answers (the call sets no timeout) is outside the model.
\<close>

datatype http_result = RequestRaises | Response int "json option"

text \<open>
  The surroundings of one call of \<^verbatim>\<open>get_sun_times\<close>: the remote answer, the library's
  \<^verbatim>\<open>datetime.fromisoformat\<close> (\<open>None\<close>: ValueError), the system's local time zone, and
  the clock readings \<^verbatim>\<open>datetime.now().month\<close>, \<^verbatim>\<open>datetime.now().date()\<close> and
  \<^verbatim>\<open>datetime.now().astimezone().tzinfo\<close>.
\<close>

record sun_env =
  remote :: http_result
  fromisoformat :: "string \<Rightarrow> datetime option"
  tzlocal :: "naive \<Rightarrow> timedelta"
  now_month :: nat
  now_date :: date
  local_timezone :: timedelta

definition sun_times :: "(nat \<times> (string \<times> string)) list" where
  "sun_times =
     [(1, (''08:00'', ''16:00'')),
      (2, (''07:30'', ''17:00'')),
      (3, (''06:30'', ''18:00'')),
      (4, (''06:00'', ''19:30'')),
      (5, (''05:00'', ''20:30'')),
      (6, (''04:30'', ''21:00'')),
      (7, (''05:00'', ''21:00'')),
      (8, (''05:30'', ''20:00'')),
      (9, (''06:30'', ''19:00'')),
      (10, (''07:00'', ''17:30'')),
      (11, (''07:30'', ''16:00'')),
      (12, (''08:00'', ''15:45''))]"

definition parse_sun_field :: "sun_env \<Rightarrow> json \<Rightarrow> string \<Rightarrow> error + datetime" where
  "parse_sun_field env results k =
     (case json_getitem results k of
        Inl e \<Rightarrow> Inl e
      | Inr v \<Rightarrow>
          (case replace_Z v of
             Inl e \<Rightarrow> Inl e
           | Inr s \<Rightarrow>
               (case fromisoformat env s of
                  None \<Rightarrow> Inl ValueError
                | Some dt \<Rightarrow> Inr dt)))"

text \<open>
  The three statements under \<^verbatim>\<open>if TIME_OFFSET != 0\<close> inside the \<^verbatim>\<open>try\<close> block:
  the offset is built, then added to the sunrise, then to the sunset.
\<close>

definition apply_offset_api :: "config \<Rightarrow> aware \<Rightarrow> aware \<Rightarrow> error + (aware \<times> aware) option"
where
  "apply_offset_api cfg sunrise_local sunset_local =
     (case timedelta_hours (TIME_OFFSET cfg) of
        Inl e \<Rightarrow> Inl e
      | Inr offset \<Rightarrow>
          (case add_timedelta sunrise_local offset of
             Inl e \<Rightarrow> Inl e
           | Inr sunrise_shifted \<Rightarrow>
               (case add_timedelta sunset_local offset of
                  Inl e \<Rightarrow> Inl e
                | Inr sunset_shifted \<Rightarrow> Inr (Some (sunrise_shifted, sunset_shifted)))))"

text \<open>
  The body of the \<^verbatim>\<open>try\<close> block: \<open>Inl\<close> when it raises, \<open>Inr None\<close> when the
  \<^verbatim>\<open>if\<close> is false and control falls through, \<open>Inr (Some p)\<close> when it returns \<open>p\<close>.
\<close>

definition sun_times_api :: "config \<Rightarrow> sun_env \<Rightarrow> error + (aware \<times> aware) option" where
  "sun_times_api cfg env =
     (case remote env of
        RequestRaises \<Rightarrow> Inl RequestError
      | Response status_code body \<Rightarrow>
          (case body of
             None \<Rightarrow> Inl JSONDecodeError
           | Some data \<Rightarrow>
               if status_code \<noteq> 200 then Inr None
               else
                 (case json_getitem data ''status'' of
                    Inl e \<Rightarrow> Inl e
                  | Inr st \<Rightarrow>
                      if st \<noteq> JStr ''OK'' then Inr None
                      else
                        (case json_getitem data ''results'' of
                           Inl e \<Rightarrow> Inl e
                         | Inr results \<Rightarrow>
                             (case parse_sun_field env results ''sunrise'' of
                                Inl e \<Rightarrow> Inl e
                              | Inr sunrise_utc \<Rightarrow>
                                  (case json_getitem data ''results'' of
                                     Inl e \<Rightarrow> Inl e
                                   | Inr results2 \<Rightarrow>
                                       (case parse_sun_field env results2 ''sunset'' of
                                          Inl e \<Rightarrow> Inl e
                                        | Inr sunset_utc \<Rightarrow>
                                            (let sunrise_local =
                                                   astimezone (tzlocal env) sunrise_utc
                                                     (local_timezone env);
                                                 sunset_local =
                                                   astimezone (tzlocal env) sunset_utc
                                                     (local_timezone env)
                                             in if TIME_OFFSET cfg \<noteq> Finite 0
                                                then apply_offset_api cfg sunrise_local
                                                       sunset_local
                                                else Inr (Some (sunrise_local, sunset_local))))))))))"

text \<open>
  The three statements under \<^verbatim>\<open>if TIME_OFFSET != 0\<close> after the \<^verbatim>\<open>try\<close> block, where
  nothing catches what they raise.
\<close>

definition apply_offset_fallback :: "config \<Rightarrow> aware \<Rightarrow> aware \<Rightarrow> error + (aware \<times> aware)"
where
  "apply_offset_fallback cfg sunrise_time sunset_time =
     (case timedelta_hours (TIME_OFFSET cfg) of
        Inl e \<Rightarrow> Inl e
      | Inr offset \<Rightarrow>
          (case add_timedelta sunrise_time offset of
             Inl e \<Rightarrow> Inl e
           | Inr sunrise_shifted \<Rightarrow>
               (case add_timedelta sunset_time offset of
                  Inl e \<Rightarrow> Inl e
                | Inr sunset_shifted \<Rightarrow> Inr (sunrise_shifted, sunset_shifted))))"

text \<open>The code after the \<^verbatim>\<open>try\<close> block: the static table of the month.\<close>

definition sun_times_fallback :: "config \<Rightarrow> sun_env \<Rightarrow> error + (aware \<times> aware)" where
  "sun_times_fallback cfg env =
     (case map_of sun_times (now_month env) of
        None \<Rightarrow> Inl KeyError
      | Some (sunrise_time_str, sunset_time_str) \<Rightarrow>
          (case parse_hm sunrise_time_str of
             Inl e \<Rightarrow> Inl e
           | Inr (sunrise_hours, sunrise_minutes) \<Rightarrow>
               (case parse_hm sunset_time_str of
                  Inl e \<Rightarrow> Inl e
                | Inr (sunset_hours, sunset_minutes) \<Rightarrow>
                    (case mk_time sunrise_hours sunrise_minutes of
                       Inl e \<Rightarrow> Inl e
                     | Inr sunrise_t \<Rightarrow>
                         (case mk_time sunset_hours sunset_minutes of
                            Inl e \<Rightarrow> Inl e
                          | Inr sunset_t \<Rightarrow>
                              (let sunrise_time =
                                     replace_tzinfo (combine (now_date env) sunrise_t)
                                       (local_timezone env);
                                   sunset_time =
                                     replace_tzinfo (combine (now_date env) sunset_t)
                                       (local_timezone env)
                               in if TIME_OFFSET cfg \<noteq> Finite 0
                                  then apply_offset_fallback cfg sunrise_time sunset_time
                                  else Inr (sunrise_time, sunset_time)))))))"

definition get_sun_times :: "config \<Rightarrow> sun_env \<Rightarrow> error + (aware \<times> aware)" where
  "get_sun_times cfg env =
     (case sun_times_api cfg env of
        Inr (Some p) \<Rightarrow> Inr p
      | Inr None \<Rightarrow> sun_times_fallback cfg env
      | Inl e \<Rightarrow> sun_times_fallback cfg env)"

subsection \<open>The phase schedule (calculate\_phase\_times, get\_current\_phase)\<close>

definition calculate_phase_times :: "config \<Rightarrow> sun_env \<Rightarrow> error + aware dict" where
  "calculate_phase_times cfg env =
     (if debug_active cfg then
        (if TIME_OFFSET cfg \<noteq> Finite 0 \<and> \<not> DEBUG_MODE cfg then
           (case timedelta_hours (TIME_OFFSET cfg) of
              Inl e \<Rightarrow> Inl e
            | Inr offset \<Rightarrow>
                dict_map_values_err
                  (\<lambda>t. add_timedelta (ensure_timezone_aware (tzlocal env) t) offset)
                  (debug_items cfg))
         else
           Inr (dict_map_values (ensure_timezone_aware (tzlocal env)) (debug_items cfg)))
      else
        (case get_sun_times cfg env of
           Inl e \<Rightarrow> Inl e
         | Inr (sunrise, sunset) \<Rightarrow>
             (case timedelta_hours (MORNING_DURATION cfg) of
                Inl e \<Rightarrow> Inl e
              | Inr morning_delta \<Rightarrow>
                  (case add_timedelta sunrise morning_delta of
                     Inl e \<Rightarrow> Inl e
                   | Inr day_start \<Rightarrow>
                       (case timedelta_hours (EVENING_DURATION cfg) of
                          Inl e \<Rightarrow> Inl e
                        | Inr evening_delta \<Rightarrow>
                            (case sub_timedelta sunset evening_delta of
                               Inl e \<Rightarrow> Inl e
                             | Inr evening_start \<Rightarrow>
                                 Inr [(''morning'', sunrise),
                                      (''day'', day_start),
                                      (''evening'', evening_start),
                                      (''night'', sunset)]))))))"

text \<open>The \<^verbatim>\<open>if\<close> chain of \<^verbatim>\<open>get_current_phase\<close> on the instant \<open>now\<close> and the
  schedule; each \<^verbatim>\<open>phase_times[...]\<close> is looked up when its test is reached.\<close>

definition resolve_phase :: "aware \<Rightarrow> aware dict \<Rightarrow> error + string" where
  "resolve_phase now phase_times =
     (case getitem phase_times ''morning'' of
        Inl e \<Rightarrow> Inl e
      | Inr m \<Rightarrow>
          if dt_lt now m then Inr ''night''
          else
            (case getitem phase_times ''day'' of
               Inl e \<Rightarrow> Inl e
             | Inr d \<Rightarrow>
                 if dt_lt now d then Inr ''morning''
                 else
                   (case getitem phase_times ''evening'' of
                      Inl e \<Rightarrow> Inl e
                    | Inr ev \<Rightarrow>
                        if dt_lt now ev then Inr ''day''
                        else
                          (case getitem phase_times ''night'' of
                             Inl e \<Rightarrow> Inl e
                           | Inr n \<Rightarrow>
                               if dt_lt now n then Inr ''evening'' else Inr ''night''))))"

text \<open>\<open>now\<close> is the reading of \<^verbatim>\<open>get_now_with_tzinfo()\<close>.\<close>

definition get_current_phase :: "config \<Rightarrow> sun_env \<Rightarrow> aware \<Rightarrow> error + string" where
  "get_current_phase cfg env now =
     (case calculate_phase_times cfg env of
        Inl e \<Rightarrow> Inl e
      | Inr phase_times \<Rightarrow> resolve_phase now phase_times)"

subsection \<open>Override input (the parsing of DEBUG\_TIMES)\<close>

text \<open>
  One pass of the loop over the phases. \<open>today_reading\<close> is the clock read by
  \<^verbatim>\<open>datetime.datetime.today()\<close>, \<open>now_reading\<close> the clock read by
  \<^verbatim>\<open>datetime.datetime.now()\<close> in the comparison; both are naive local times.
\<close>

definition debug_entry :: "naive \<Rightarrow> naive \<Rightarrow> string \<Rightarrow> error + datetime" where
  "debug_entry today_reading now_reading time_string =
     (case parse_hm (strip time_string) of
        Inl e \<Rightarrow> Inl e
      | Inr (hours, minutes) \<Rightarrow>
          (case mk_time hours minutes of
             Inl e \<Rightarrow> Inl e
           | Inr t \<Rightarrow>
               (let today = date_of today_reading;
                    debug_time = combine today t
                in if debug_time < now_reading
                   then Inr (Naive (combine (today + 1) t))
                   else Inr (Naive debug_time))))"

text \<open>
  The loop \<^verbatim>\<open>for i, phase in enumerate(phases)\<close>. Pass \<open>i\<close> reads the clock twice,
  readings \<open>2 * i\<close> and \<open>2 * i + 1\<close> of \<open>clock\<close>. The result is whether the loop ran
  to its end, and the dictionary as far as it was filled.
\<close>

fun debug_loop ::
  "(nat \<Rightarrow> naive) \<Rightarrow> string list \<Rightarrow> (nat \<times> string) list \<Rightarrow> datetime dict \<Rightarrow> bool \<times> datetime dict"
where
  "debug_loop clock time_strings [] acc = (True, acc)"
| "debug_loop clock time_strings ((i, phase) # rest) acc =
     (if i < length time_strings then
        (case debug_entry (clock (2 * i)) (clock (2 * i + 1)) (time_strings ! i) of
           Inl e \<Rightarrow> (False, acc)
         | Inr t \<Rightarrow> debug_loop clock time_strings rest (AList.update phase t acc))
      else (False, acc))"

text \<open>
  The module-level block that sets \<open>DEBUG_MODE\<close> and \<open>DEBUG_TIMES\<close> from
  \<^verbatim>\<open>args.debug\<close>; any exception leaves \<open>DEBUG_MODE\<close> false.
\<close>

definition parse_debug :: "(nat \<Rightarrow> naive) \<Rightarrow> string option \<Rightarrow> bool \<times> datetime dict option" where
  "parse_debug clock debug_arg =
     (case debug_arg of
        None \<Rightarrow> (False, None)
      | Some s \<Rightarrow>
          (let time_strings = split CHR '','' s
           in if length time_strings \<noteq> 4 then (False, None)
              else (case debug_loop clock time_strings (enumerate 0 phases) [] of
                      (ok, d) \<Rightarrow> (ok, Some d))))"

subsection \<open>The scheduler's job table\<close>

datatype job_func = Change_cover_job string | Calculate_times_for_tomorrow

record job =
  func :: job_func
  run_date :: aware
  misfire_grace_time :: nat

type_synonym scheduler = "string \<rightharpoonup> job"

text \<open>\<^verbatim>\<open>scheduler.add_job(f, 'date', run_date=t, id=i, replace_existing=True,
  misfire_grace_time=3600)\<close>\<close>

definition add_job :: "job_func \<Rightarrow> aware \<Rightarrow> string \<Rightarrow> scheduler \<Rightarrow> scheduler" where
  "add_job f t i s = s(i \<mapsto> \<lparr>func = f, run_date = t, misfire_grace_time = 3600\<rparr>)"

definition remove_all_jobs :: "scheduler \<Rightarrow> scheduler" where
  "remove_all_jobs s = Map.empty"

fun schedule_loop ::
  "(naive \<Rightarrow> timedelta) \<Rightarrow> aware \<Rightarrow> aware dict \<Rightarrow> string list \<Rightarrow> scheduler \<Rightarrow> error + scheduler"
where
  "schedule_loop tzl now phase_times [] s = Inr s"
| "schedule_loop tzl now phase_times (phase # rest) s =
     (case getitem phase_times phase of
        Inl e \<Rightarrow> Inl e
      | Inr t \<Rightarrow>
          (let time = ensure_timezone_aware tzl (Aware t)
           in if dt_lt now time
              then schedule_loop tzl now phase_times rest
                     (add_job (Change_cover_job phase) time phase s)
              else schedule_loop tzl now phase_times rest s))"

text \<open>\<open>now\<close> is the reading of \<^verbatim>\<open>get_now_with_tzinfo()\<close> in \<^verbatim>\<open>schedule_phase_changes\<close>.\<close>

definition schedule_phase_changes ::
  "(naive \<Rightarrow> timedelta) \<Rightarrow> aware \<Rightarrow> aware dict \<Rightarrow> scheduler \<Rightarrow> error + scheduler"
where
  "schedule_phase_changes tzl now phase_times s = schedule_loop tzl now phase_times phases s"

text \<open>
  \<open>now\<close> is the clock read at the start of \<^verbatim>\<open>calculate_times_for_tomorrow\<close>,
  \<open>now_sched\<close> the clock read inside \<^verbatim>\<open>schedule_phase_changes\<close>.
\<close>

definition tomorrow_phases_of :: "config \<Rightarrow> sun_env \<Rightarrow> date \<Rightarrow> error + aware dict" where
  "tomorrow_phases_of cfg env tomorrow =
     (if debug_active cfg then
        (let tp = dict_map_values
                    (\<lambda>t. dt_add (ensure_timezone_aware (tzlocal env) t) (timedelta_days 1))
                    (debug_items cfg)
         in if TIME_OFFSET cfg \<noteq> Finite 0 \<and> \<not> DEBUG_MODE cfg
            then (case timedelta_hours (TIME_OFFSET cfg) of
                    Inl e \<Rightarrow> Inl e
                  | Inr offset \<Rightarrow> dict_map_values_err (\<lambda>t. add_timedelta t offset) tp)
            else Inr tp)
      else
        (case calculate_phase_times cfg env of
           Inl e \<Rightarrow> Inl e
         | Inr today_phases \<Rightarrow>
             Inr (dict_map_values
                    (\<lambda>t. replace_tzinfo (combine tomorrow (time_of (wall t))) (utcoffset t))
                    today_phases)))"

definition calculate_times_for_tomorrow ::
  "config \<Rightarrow> sun_env \<Rightarrow> aware \<Rightarrow> aware \<Rightarrow> scheduler \<Rightarrow> error + scheduler"
where
  "calculate_times_for_tomorrow cfg env now now_sched s =
     (let s1 = remove_all_jobs s;
          tomorrow = date_of (wall now) + 1
      in case tomorrow_phases_of cfg env tomorrow of
           Inl e \<Rightarrow> Inl e
         | Inr tomorrow_phases \<Rightarrow>
             (case schedule_phase_changes (tzlocal env) now_sched tomorrow_phases s1 of
                Inl e \<Rightarrow> Inl e
              | Inr s2 \<Rightarrow>
                  Inr (add_job Calculate_times_for_tomorrow
                         (replace_tzinfo (combine tomorrow (23 * HOUR)) (utcoffset now))
                         ''recalculate'' s2)))"

definition schedule_today_changes ::
  "config \<Rightarrow> sun_env \<Rightarrow> aware \<Rightarrow> aware \<Rightarrow> scheduler \<Rightarrow> error + scheduler"
where
  "schedule_today_changes cfg env now_sched now s =
     (case calculate_phase_times cfg env of
        Inl e \<Rightarrow> Inl e
      | Inr phase_times \<Rightarrow>
          (case schedule_phase_changes (tzlocal env) now_sched phase_times s of
             Inl e \<Rightarrow> Inl e
           | Inr s1 \<Rightarrow>
               Inr (add_job Calculate_times_for_tomorrow
                      (replace_tzinfo (combine (date_of (wall now) + 1) MINUTE) (utcoffset now))
                      ''recalculate'' s1)))"

subsection \<open>The state file and the cover change\<close>

text \<open>
  The state file is absent (\<open>None\<close>), or present with a content that cannot be opened or
  parsed, or present with a JSON document. The world also counts the calls of
  \<^verbatim>\<open>change_playlist_cover\<close> and the calls of \<^verbatim>\<open>sp.playlist_upload_cover_image\<close>.
\<close>

datatype file_content = Unreadable | Parsed json

record world =
  state_file :: "file_content option"
  apply_calls :: nat
  upload_calls :: nat

text \<open>The result \<open>JNull\<close> is Python's \<^verbatim>\<open>None\<close>.\<close>

definition load_state :: "file_content option \<Rightarrow> json" where
  "load_state f =
     (case f of
        None \<Rightarrow> JNull
      | Some Unreadable \<Rightarrow> JNull
      | Some (Parsed data) \<Rightarrow>
          (case json_getitem data ''phase'' of
             Inl e \<Rightarrow> JNull
           | Inr p \<Rightarrow>
               (case json_getitem data ''timestamp'' of
                  Inl e \<Rightarrow> JNull
                | Inr ts \<Rightarrow> p)))"

text \<open>
  Writing the file: \<^verbatim>\<open>open(STATE_FILE, 'w')\<close> raises and the file stays as it was, or
  the file is opened (and emptied) and \<^verbatim>\<open>json.dump\<close> raises, or the document is written.
\<close>

datatype write_outcome = WriteOk | OpenRaises | DumpRaises

record save_env =
  save_sun :: sun_env
  isoformat :: "aware \<Rightarrow> string"
  timestamp :: string
  writing :: write_outcome

definition save_state :: "config \<Rightarrow> save_env \<Rightarrow> string \<Rightarrow> world \<Rightarrow> world" where
  "save_state cfg env phase w =
     (case calculate_phase_times cfg (save_sun env) of
        Inl e \<Rightarrow> w
      | Inr phase_times \<Rightarrow>
          (let times_iso = dict_map_values (\<lambda>t. JStr (isoformat env t)) phase_times;
               data = JObj [(''phase'', JStr phase),
                            (''timestamp'', JStr (timestamp env)),
                            (''playlist_id'', JStr (PLAYLIST_ID cfg)),
                            (''phase_times'', JObj times_iso),
                            (''debug_mode'', JBool (DEBUG_MODE cfg)),
                            (''time_offset'', JFloat (TIME_OFFSET cfg))]
           in case writing env of
                OpenRaises \<Rightarrow> w
              | DumpRaises \<Rightarrow> w\<lparr>state_file := Some Unreadable\<rparr>
              | WriteOk \<Rightarrow> w\<lparr>state_file := Some (Parsed data)\<rparr>))"

definition get_image_path :: "config \<Rightarrow> string \<Rightarrow> error + string" where
  "get_image_path cfg phase =
     (if phase = ''morning'' then Inr (MORNING_IMAGE_PATH cfg)
      else if phase = ''day'' then Inr (DAY_IMAGE_PATH cfg)
      else if phase = ''evening'' then Inr (EVENING_IMAGE_PATH cfg)
      else if phase = ''night'' then Inr (NIGHT_IMAGE_PATH cfg)
      else Inl ValueError)"

text \<open>
  What happens inside the \<^verbatim>\<open>try\<close> block of \<^verbatim>\<open>change_playlist_cover\<close>: one of its
  four steps raises (initialising the client, fetching the playlist, encoding the image,
  uploading it), or the upload returns.
\<close>

datatype spotify_outcome =
  InitRaises | PlaylistRaises | EncodeRaises | UploadRaises | UploadReturns

definition change_playlist_cover ::
  "spotify_outcome \<Rightarrow> string \<Rightarrow> string \<Rightarrow> world \<Rightarrow> bool \<times> world"
where
  "change_playlist_cover outcome playlist_id image_path w =
     (let w1 = w\<lparr>apply_calls := apply_calls w + 1\<rparr>
      in case outcome of
           InitRaises \<Rightarrow> (False, w1)
         | PlaylistRaises \<Rightarrow> (False, w1)
         | EncodeRaises \<Rightarrow> (False, w1)
         | UploadRaises \<Rightarrow> (False, w1\<lparr>upload_calls := upload_calls w1 + 1\<rparr>)
         | UploadReturns \<Rightarrow> (True, w1\<lparr>upload_calls := upload_calls w1 + 1\<rparr>))"

record cover_env =
  spotify :: spotify_outcome
  saving :: save_env

definition change_cover :: "config \<Rightarrow> cover_env \<Rightarrow> string \<Rightarrow> world \<Rightarrow> error + world" where
  "change_cover cfg env phase w =
     (let current_state = load_state (state_file w)
      in if current_state = JStr phase then Inr w
         else
           (case get_image_path cfg phase of
              Inl e \<Rightarrow> Inl e
            | Inr image_path \<Rightarrow>
                (case change_playlist_cover (spotify env) (PLAYLIST_ID cfg) image_path w of
                   (success, w1) \<Rightarrow>
                     if success then Inr (save_state cfg (saving env) phase w1) else Inr w1)))"

definition set_initial_cover ::
  "config \<Rightarrow> sun_env \<Rightarrow> aware \<Rightarrow> cover_env \<Rightarrow> world \<Rightarrow> error + world"
where
  "set_initial_cover cfg env now cenv w =
     (case get_current_phase cfg env now of
        Inl e \<Rightarrow> Inl e
      | Inr current_phase \<Rightarrow> change_cover cfg cenv current_phase w)"

subsection \<open>The order of the phases\<close>

text \<open>
  The position of a phase in \<open>phases\<close>, and the walk through one calendar day: the night
  that began the evening before, then the four phases in order.
\<close>

definition phase_index :: "string \<Rightarrow> nat" where
  "phase_index p = length (takeWhile (\<lambda>q. q \<noteq> p) phases)"

definition day_cycle :: "string list" where
  "day_cycle = last phases # phases"

subsection \<open>Concrete inputs\<close>

text \<open>
  The default configuration (three hours of morning, two of evening, one hour of offset,
  no override), a day on which the remote lookup fails in June, and a clock.
\<close>

definition default_config :: config where
  "default_config =
     \<lparr>PLAYLIST_ID = ''playlist'',
      MORNING_IMAGE_PATH = ''images/morning.jpg'',
      DAY_IMAGE_PATH = ''images/day.jpg'',
      EVENING_IMAGE_PATH = ''images/evening.jpg'',
      NIGHT_IMAGE_PATH = ''images/night.jpg'',
      MORNING_DURATION = Finite 3,
      EVENING_DURATION = Finite 2,
      TIME_OFFSET = Finite 1,
      DEBUG_MODE = False,
      DEBUG_TIMES = None\<rparr>"

definition offline_june :: sun_env where
  "offline_june =
     \<lparr>remote = RequestRaises,
      fromisoformat = (\<lambda>s. None),
      tzlocal = (\<lambda>w. 0),
      now_month = 6,
      now_date = 0,
      local_timezone = 0\<rparr>"

definition at_clock :: "int \<Rightarrow> int \<Rightarrow> int \<Rightarrow> aware" where
  "at_clock d h m = \<lparr>wall = d * DAY + h * HOUR + m * MINUTE, utcoffset = 0\<rparr>"


text \<open>The calendar fields of a datetime, by which naive datetimes compare.\<close>

definition naive_value :: "datetime \<Rightarrow> naive" where
  "naive_value dt = (case dt of Naive w \<Rightarrow> w | Aware a \<Rightarrow> wall a)"

text \<open>
  A world with no state file, a world whose state file records the morning phase, a save
  that succeeds, and the surroundings of a cover change whose upload returns or raises.
\<close>

definition fresh_world :: world where
  "fresh_world = \<lparr>state_file = None, apply_calls = 0, upload_calls = 0\<rparr>"

definition good_save :: save_env where
  "good_save =
     \<lparr>save_sun = offline_june,
      isoformat = (\<lambda>t. ''iso''),
      timestamp = ''stamp'',
      writing = WriteOk\<rparr>"

definition upload_ok :: cover_env where
  "upload_ok = \<lparr>spotify = UploadReturns, saving = good_save\<rparr>"

definition upload_fails :: cover_env where
  "upload_fails = \<lparr>spotify = UploadRaises, saving = good_save\<rparr>"

definition saved_morning :: world where
  "saved_morning =
     \<lparr>state_file = Some (Parsed (JObj [(''phase'', JStr ''morning''),
                                       (''timestamp'', JStr ''stamp'')])),
      apply_calls = 0, upload_calls = 0\<rparr>"

text \<open>The configuration of a run started at 10:00 of day 0 with
  \<^verbatim>\<open>--debug "06:00,09:00,18:00,21:00"\<close>.\<close>

definition override_config :: config where
  "override_config =
     (case parse_debug (\<lambda>k. 10 * HOUR) (Some ''06:00,09:00,18:00,21:00'') of
        (ok, d) \<Rightarrow> default_config\<lparr>DEBUG_MODE := ok, DEBUG_TIMES := d\<rparr>)"

text \<open>A June day on which the remote service answers with a sunrise and a sunset.\<close>

definition answering_june :: sun_env where
  "answering_june =
     \<lparr>remote = Response 200
                 (Some (JObj [(''results'',
                                JObj [(''sunrise'', JStr ''0001-01-01T03:45:00+00:00''),
                                      (''sunset'', JStr ''0001-01-01T20:10:00Z'')]),
                              (''status'', JStr ''OK'')])),
      fromisoformat =
        (\<lambda>s. if s = ''0001-01-01T03:45:00+00:00'' then Some (Aware (at_clock 0 3 45))
             else if s = ''0001-01-01T20:10:00+00:00'' then Some (Aware (at_clock 0 20 10))
             else None),
      tzlocal = (\<lambda>w. 0),
      now_month = 6,
      now_date = 0,
      local_timezone = 0\<rparr>"

section \<open>Facts about the model\<close>

subsection \<open>Auxiliary lemmas\<close>

lemma round_half_even_of_int: "round_half_even (of_int n) = n"
  by (simp add: round_half_even_def)

lemma timedelta_hours_whole:
  assumes "- 23999999976 \<le> n" and "n < 24000000000"
  shows "timedelta_hours (Finite (of_int n)) = Inr (n * HOUR)"
proof -
  have "of_int n * (3600000000::rat) = of_int (n * 3600000000)" by simp
  then have "round_half_even (of_int n * 3600000000) = n * 3600000000"
    by (simp only: round_half_even_of_int)
  then show ?thesis
    using assms by (simp add: timedelta_hours_def Let_def DAY_def HOUR_def)
qed

lemma timedelta_hours_small:
  "timedelta_hours (Finite 0) = Inr 0" "timedelta_hours (Finite 1) = Inr HOUR"
  "timedelta_hours (Finite 2) = Inr (2 * HOUR)" "timedelta_hours (Finite 3) = Inr (3 * HOUR)"
  "timedelta_hours (Finite 100000000) = Inr (100000000 * HOUR)"
  using timedelta_hours_whole [of 0] timedelta_hours_whole [of 1] timedelta_hours_whole [of 2]
    timedelta_hours_whole [of 3] timedelta_hours_whole [of 100000000]
  by simp_all



lemma in_range_between: "in_range a \<Longrightarrow> in_range b \<Longrightarrow> a \<le> w \<Longrightarrow> w \<le> b \<Longrightarrow> in_range w"
  by (simp add: in_range_def)



lemma resolve_phase_cases:
  assumes "map_of pt ''morning'' = Some m" and "map_of pt ''day'' = Some d"
    and "map_of pt ''evening'' = Some e" and "map_of pt ''night'' = Some n"
  shows "resolve_phase now pt =
           Inr (if dt_lt now m then ''night''
                else if dt_lt now d then ''morning''
                else if dt_lt now e then ''day''
                else if dt_lt now n then ''evening'' else ''night'')"
  using assms by (simp add: resolve_phase_def getitem_def)

lemma fallback_june:
  "sun_times_fallback default_config offline_june =
     Inr (at_clock 0 5 30, at_clock 0 22 0)"
  by (simp add: sun_times_fallback_def default_config_def offline_june_def sun_times_def
      parse_hm_def int_py_def int_strip_def is_int_space_def is_digit_def digit_val_def mk_time_def
      apply_offset_fallback_def timedelta_hours_small add_timedelta_def in_range_def
      replace_tzinfo_def combine_def dt_add_def at_clock_def HOUR_def MINUTE_def DAY_def)

lemma sun_june: "get_sun_times default_config offline_june = Inr (at_clock 0 5 30, at_clock 0 22 0)"
proof -
  have "sun_times_api default_config offline_june = Inl RequestError"
    by (simp add: sun_times_api_def offline_june_def)
  then show ?thesis by (simp add: get_sun_times_def fallback_june)
qed

lemma schedule_june:
  "calculate_phase_times default_config offline_june =
     Inr [(''morning'', at_clock 0 5 30), (''day'', at_clock 0 8 30),
          (''evening'', at_clock 0 20 0), (''night'', at_clock 0 22 0)]"
proof -
  have nd: "\<not> debug_active default_config"
    by (simp add: debug_active_def default_config_def)
  have td: "timedelta_hours (MORNING_DURATION default_config) = Inr (3 * HOUR)"
    "timedelta_hours (EVENING_DURATION default_config) = Inr (2 * HOUR)"
    by (simp_all add: default_config_def timedelta_hours_small)
  have step: "add_timedelta (at_clock 0 5 30) (3 * HOUR) = Inr (at_clock 0 8 30)"
    "sub_timedelta (at_clock 0 22 0) (2 * HOUR) = Inr (at_clock 0 20 0)"
    by (simp_all add: add_timedelta_def sub_timedelta_def in_range_def at_clock_def dt_add_def
        dt_sub_def HOUR_def MINUTE_def DAY_def)
  show ?thesis
    by (simp add: calculate_phase_times_def nd sun_june td step)
qed

lemma schedule_june_keys:
  "map_of [(''morning'', at_clock 0 5 30), (''day'', at_clock 0 8 30),
           (''evening'', at_clock 0 20 0), (''night'', at_clock 0 22 0)] ''morning''
     = Some (at_clock 0 5 30)"
  "map_of [(''morning'', at_clock 0 5 30), (''day'', at_clock 0 8 30),
           (''evening'', at_clock 0 20 0), (''night'', at_clock 0 22 0)] ''day''
     = Some (at_clock 0 8 30)"
  "map_of [(''morning'', at_clock 0 5 30), (''day'', at_clock 0 8 30),
           (''evening'', at_clock 0 20 0), (''night'', at_clock 0 22 0)] ''evening''
     = Some (at_clock 0 20 0)"
  "map_of [(''morning'', at_clock 0 5 30), (''day'', at_clock 0 8 30),
           (''evening'', at_clock 0 20 0), (''night'', at_clock 0 22 0)] ''night''
     = Some (at_clock 0 22 0)"
  by simp_all

lemma phase_index_simps:
  "phase_index ''morning'' = 0" "phase_index ''day'' = 1"
  "phase_index ''evening'' = 2" "phase_index ''night'' = 3"
  by (simp_all add: phase_index_def phases_def)

lemma day_cycle_eq: "day_cycle = [''night'', ''morning'', ''day'', ''evening'', ''night'']"
  by (simp add: day_cycle_def phases_def)

lemma dt_add_zero: "dt_add a 0 = a"
  by (simp add: dt_add_def)

lemma date_of_combine: "0 \<le> t \<Longrightarrow> t < DAY \<Longrightarrow> date_of (combine d t) = d"
  by (simp add: date_of_def combine_def DAY_def)

lemma parse_hm_table:
  "parse_hm ''08:00'' = Inr (8, 0)" "parse_hm ''16:00'' = Inr (16, 0)"
  "parse_hm ''07:30'' = Inr (7, 30)" "parse_hm ''17:00'' = Inr (17, 0)"
  "parse_hm ''06:30'' = Inr (6, 30)" "parse_hm ''18:00'' = Inr (18, 0)"
  "parse_hm ''06:00'' = Inr (6, 0)" "parse_hm ''19:30'' = Inr (19, 30)"
  "parse_hm ''05:00'' = Inr (5, 0)" "parse_hm ''20:30'' = Inr (20, 30)"
  "parse_hm ''04:30'' = Inr (4, 30)" "parse_hm ''21:00'' = Inr (21, 0)"
  "parse_hm ''05:30'' = Inr (5, 30)" "parse_hm ''20:00'' = Inr (20, 0)"
  "parse_hm ''19:00'' = Inr (19, 0)" "parse_hm ''07:00'' = Inr (7, 0)"
  "parse_hm ''17:30'' = Inr (17, 30)" "parse_hm ''15:45'' = Inr (15, 45)"
  "parse_hm ''09:00'' = Inr (9, 0)"
  by (simp_all add: parse_hm_def int_py_def int_strip_def is_int_space_def is_digit_def
      digit_val_def)

lemma month_cases:
  assumes "1 \<le> (k::nat)" and "k \<le> 12"
  shows "k = 1 \<or> k = 2 \<or> k = 3 \<or> k = 4 \<or> k = 5 \<or> k = 6 \<or> k = 7 \<or> k = 8 \<or> k = 9 \<or>
         k = 10 \<or> k = 11 \<or> k = 12"
  using assms by arith

lemma sun_times_fallback_unfold:
  assumes "map_of sun_times (now_month env) = Some (sr, ss)"
    and "parse_hm sr = Inr (h1, m1)" and "parse_hm ss = Inr (h2, m2)"
    and "mk_time h1 m1 = Inr t1" and "mk_time h2 m2 = Inr t2"
  shows "sun_times_fallback cfg env =
           (if TIME_OFFSET cfg \<noteq> Finite 0
            then apply_offset_fallback cfg
                   (replace_tzinfo (combine (now_date env) t1) (local_timezone env))
                   (replace_tzinfo (combine (now_date env) t2) (local_timezone env))
            else Inr (replace_tzinfo (combine (now_date env) t1) (local_timezone env),
                      replace_tzinfo (combine (now_date env) t2) (local_timezone env)))"
  using assms by (simp add: sun_times_fallback_def Let_def)

lemma sun_times_fallback_eq:
  assumes "map_of sun_times (now_month env) = Some (sr, ss)"
    and "parse_hm sr = Inr (h1, m1)" and "parse_hm ss = Inr (h2, m2)"
    and "mk_time h1 m1 = Inr t1" and "mk_time h2 m2 = Inr t2"
    and "timedelta_hours (TIME_OFFSET cfg) = Inr off"
    and "TIME_OFFSET cfg \<noteq> Finite 0 \<longrightarrow>
           in_range (combine (now_date env) t1 + off) \<and>
           in_range (combine (now_date env) t2 + off)"
  shows "sun_times_fallback cfg env =
           Inr (dt_add (replace_tzinfo (combine (now_date env) t1) (local_timezone env)) off,
                dt_add (replace_tzinfo (combine (now_date env) t2) (local_timezone env)) off)"
proof (cases "TIME_OFFSET cfg = Finite 0")
  case True
  with assms(6) have "off = 0" by (simp add: timedelta_hours_small)
  with True show ?thesis
    by (simp add: sun_times_fallback_unfold [OF assms(1-5)] dt_add_zero)
next
  case False
  with assms(6,7) show ?thesis
    by (simp add: sun_times_fallback_unfold [OF assms(1-5)] apply_offset_fallback_def
        add_timedelta_def replace_tzinfo_def)
qed

lemma sun_times_row:
  assumes "1 \<le> k" and "k \<le> 12"
  shows "\<exists>sr ss h1 m1 h2 m2 t1 t2.
           map_of sun_times k = Some (sr, ss) \<and>
           parse_hm sr = Inr (h1, m1) \<and> parse_hm ss = Inr (h2, m2) \<and>
           mk_time h1 m1 = Inr t1 \<and> mk_time h2 m2 = Inr t2 \<and>
           0 \<le> t1 \<and> t1 < t2 \<and> t2 < DAY"
proof -
  from month_cases [OF assms]
  consider "k = 1" | "k = 2" | "k = 3" | "k = 4" | "k = 5" | "k = 6" | "k = 7" | "k = 8"
    | "k = 9" | "k = 10" | "k = 11" | "k = 12" by blast
  then show ?thesis
    by cases
      (simp_all add: sun_times_def parse_hm_table mk_time_def HOUR_def MINUTE_def DAY_def)
qed


lemma dt_lt_shift:
  "t1 < t2 \<Longrightarrow>
   dt_lt (dt_add (replace_tzinfo (combine d t1) z) off) (dt_add (replace_tzinfo (combine d t2) z) off)"
  by (simp add: dt_lt_def utc_def dt_add_def replace_tzinfo_def combine_def)


lemma get_image_path_phase: "phase \<in> set phases \<Longrightarrow> \<exists>path. get_image_path cfg phase = Inr path"
  by (auto simp: phases_def get_image_path_def)

lemma load_state_saved:
  "load_state (Some (Parsed (JObj ((''phase'', JStr phase) # (''timestamp'', ts) # rest)))) = JStr phase"
  by (simp add: load_state_def json_getitem_def)

lemma date_of_bounds: "date_of now * DAY \<le> now \<and> now < date_of now * DAY + DAY"
proof -
  have "now = date_of now * DAY + now mod DAY"
    by (simp add: date_of_def)
  moreover have "0 \<le> now mod DAY" "now mod DAY < DAY"
    by (simp_all add: DAY_def)
  ultimately show ?thesis by linarith
qed

lemma split_override:
  "split CHR '','' ''06:00,09:00,18:00,21:00'' = [''06:00'', ''09:00'', ''18:00'', ''21:00'']"
  by simp

lemma strip_override:
  "strip ''06:00'' = ''06:00''" "strip ''09:00'' = ''09:00''"
  "strip ''18:00'' = ''18:00''" "strip ''21:00'' = ''21:00''"
  by (simp_all add: strip_def is_space_def)

lemma debug_entry_override:
  "debug_entry a b ''06:00'' =
     Inr (Naive (if combine (date_of a) (6 * HOUR) < b then combine (date_of a + 1) (6 * HOUR)
                 else combine (date_of a) (6 * HOUR)))"
  "debug_entry a b ''09:00'' =
     Inr (Naive (if combine (date_of a) (9 * HOUR) < b then combine (date_of a + 1) (9 * HOUR)
                 else combine (date_of a) (9 * HOUR)))"
  "debug_entry a b ''18:00'' =
     Inr (Naive (if combine (date_of a) (18 * HOUR) < b then combine (date_of a + 1) (18 * HOUR)
                 else combine (date_of a) (18 * HOUR)))"
  "debug_entry a b ''21:00'' =
     Inr (Naive (if combine (date_of a) (21 * HOUR) < b then combine (date_of a + 1) (21 * HOUR)
                 else combine (date_of a) (21 * HOUR)))"
  by (simp_all add: debug_entry_def strip_override parse_hm_table mk_time_def Let_def)

lemma enumerate_phases:
  "enumerate 0 phases = [(0, ''morning''), (1, ''day''), (2, ''evening''), (3, ''night'')]"
  by (simp add: phases_def)

lemma parse_debug_override_eq:
  "parse_debug clock (Some ''06:00,09:00,18:00,21:00'') =
     (True, Some
       [(''morning'', Naive (if combine (date_of (clock 0)) (6 * HOUR) < clock 1
                            then combine (date_of (clock 0) + 1) (6 * HOUR)
                            else combine (date_of (clock 0)) (6 * HOUR))),
        (''day'', Naive (if combine (date_of (clock 2)) (9 * HOUR) < clock 3
                        then combine (date_of (clock 2) + 1) (9 * HOUR)
                        else combine (date_of (clock 2)) (9 * HOUR))),
        (''evening'', Naive (if combine (date_of (clock 4)) (18 * HOUR) < clock 5
                            then combine (date_of (clock 4) + 1) (18 * HOUR)
                            else combine (date_of (clock 4)) (18 * HOUR))),
        (''night'', Naive (if combine (date_of (clock 6)) (21 * HOUR) < clock 7
                          then combine (date_of (clock 6) + 1) (21 * HOUR)
                          else combine (date_of (clock 6)) (21 * HOUR)))])"
  by (simp add: parse_debug_def split_override enumerate_phases debug_entry_override
      del: split.simps)


lemma parse_debug_at_ten:
  "parse_debug (\<lambda>k. 10 * HOUR) (Some ''06:00,09:00,18:00,21:00'') =
     (True, Some [(''morning'', Naive (30 * HOUR)), (''day'', Naive (33 * HOUR)),
                  (''evening'', Naive (18 * HOUR)), (''night'', Naive (21 * HOUR))])"
  by (simp add: parse_debug_override_eq combine_def date_of_def HOUR_def DAY_def)

lemma override_config_eq:
  "override_config =
     default_config\<lparr>DEBUG_MODE := True,
       DEBUG_TIMES := Some [(''morning'', Naive (30 * HOUR)), (''day'', Naive (33 * HOUR)),
                            (''evening'', Naive (18 * HOUR)), (''night'', Naive (21 * HOUR))]\<rparr>"
  unfolding override_config_def parse_debug_at_ten by simp

lemma schedule_loop_phases:
  assumes "map_of tp ''morning'' = Some m" and "map_of tp ''day'' = Some d"
    and "map_of tp ''evening'' = Some e" and "map_of tp ''night'' = Some n"
  shows "schedule_phase_changes tzl now tp s =
     Inr (\<lambda>i. if i = ''night'' \<and> dt_lt now n
                 then Some \<lparr>func = Change_cover_job ''night'', run_date = n,
                            misfire_grace_time = 3600\<rparr>
               else if i = ''evening'' \<and> dt_lt now e
                 then Some \<lparr>func = Change_cover_job ''evening'', run_date = e,
                            misfire_grace_time = 3600\<rparr>
               else if i = ''day'' \<and> dt_lt now d
                 then Some \<lparr>func = Change_cover_job ''day'', run_date = d,
                            misfire_grace_time = 3600\<rparr>
               else if i = ''morning'' \<and> dt_lt now m
                 then Some \<lparr>func = Change_cover_job ''morning'', run_date = m,
                            misfire_grace_time = 3600\<rparr>
               else s i)"
  using assms
  by (auto simp: schedule_phase_changes_def phases_def getitem_def ensure_timezone_aware_def
      add_job_def Let_def fun_eq_iff)

lemma override_today:
  "calculate_phase_times override_config offline_june =
     Inr [(''morning'', at_clock 1 6 0), (''day'', at_clock 1 9 0),
          (''evening'', at_clock 0 18 0), (''night'', at_clock 0 21 0)]"
  by (simp add: calculate_phase_times_def override_config_eq default_config_def debug_active_def
      debug_items_def dict_map_values_def ensure_timezone_aware_def astimezone_local_def
      offline_june_def at_clock_def HOUR_def MINUTE_def DAY_def)

lemma override_tomorrow:
  "tomorrow_phases_of override_config offline_june dd =
     Inr [(''morning'', at_clock 2 6 0), (''day'', at_clock 2 9 0),
          (''evening'', at_clock 1 18 0), (''night'', at_clock 1 21 0)]"
  by (simp add: tomorrow_phases_of_def override_config_eq default_config_def debug_active_def
      debug_items_def dict_map_values_def ensure_timezone_aware_def astimezone_local_def
      offline_june_def at_clock_def dt_add_def timedelta_days_def HOUR_def MINUTE_def DAY_def)


lemma override_keys:
  "map_of [(''morning'', a), (''day'', b), (''evening'', c), (''night'', d)] ''morning'' = Some a"
  "map_of [(''morning'', a), (''day'', b), (''evening'', c), (''night'', d)] ''day'' = Some b"
  "map_of [(''morning'', a), (''day'', b), (''evening'', c), (''night'', d)] ''evening'' = Some c"
  "map_of [(''morning'', a), (''day'', b), (''evening'', c), (''night'', d)] ''night'' = Some d"
  by simp_all

lemma clock_order:
  "dt_lt (at_clock 0 10 0) (at_clock 1 6 0)" "dt_lt (at_clock 0 10 0) (at_clock 1 9 0)"
  "dt_lt (at_clock 0 10 0) (at_clock 0 18 0)" "dt_lt (at_clock 0 10 0) (at_clock 0 21 0)"
  "dt_lt (at_clock 1 0 1) (at_clock 1 6 0)" "dt_lt (at_clock 1 0 1) (at_clock 2 6 0)"
  "dt_lt (at_clock 1 0 1) (at_clock 2 9 0)" "dt_lt (at_clock 1 0 1) (at_clock 1 18 0)"
  "dt_lt (at_clock 1 0 1) (at_clock 1 21 0)"
  by (simp_all add: dt_lt_def utc_def at_clock_def HOUR_def MINUTE_def DAY_def)

lemma recalc_time:
  "replace_tzinfo (combine (date_of (wall (at_clock 1 0 1)) + 1) (23 * HOUR))
     (utcoffset (at_clock 1 0 1)) = at_clock 2 23 0"
  by (simp add: replace_tzinfo_def combine_def date_of_def at_clock_def HOUR_def MINUTE_def DAY_def)

lemma fallback_pair_lt:
  assumes "sun_times_fallback cfg env = Inr (sunrise, sunset)"
  shows "dt_lt sunrise sunset \<and> utcoffset sunrise = utcoffset sunset"
proof -
  from assms obtain sr ss where e: "map_of sun_times (now_month env) = Some (sr, ss)"
    by (auto simp: sun_times_fallback_def split: option.splits)
  then have "(now_month env, (sr, ss)) \<in> set sun_times" by (rule map_of_SomeD)
  then have m: "1 \<le> now_month env" "now_month env \<le> 12"
    by (auto simp: sun_times_def)
  from sun_times_row [OF m] e obtain h1 m1 h2 m2 t1 t2 where
    row: "parse_hm sr = Inr (h1, m1)" "parse_hm ss = Inr (h2, m2)"
      "mk_time h1 m1 = Inr t1" "mk_time h2 m2 = Inr t2"
    and ord: "t1 < t2"
    by auto
  from assms show ?thesis
    unfolding sun_times_fallback_unfold [OF e row]
    using ord
    by (auto simp: apply_offset_fallback_def add_timedelta_def dt_add_def replace_tzinfo_def
        dt_lt_def utc_def combine_def split: if_splits sum.splits)
qed




lemma fallback_three_hours:
  "sun_times_fallback (default_config\<lparr>TIME_OFFSET := Finite 3\<rparr>) offline_june =
     Inr (at_clock 0 7 30, at_clock 1 0 0)"
  by (simp add: sun_times_fallback_def default_config_def offline_june_def sun_times_def
      parse_hm_table mk_time_def apply_offset_fallback_def timedelta_hours_small
      add_timedelta_def in_range_def replace_tzinfo_def combine_def dt_add_def at_clock_def
      HOUR_def MINUTE_def DAY_def)

lemma fallback_bad_offset:
  assumes "1 \<le> now_month env" and "now_month env \<le> 12"
  shows "sun_times_fallback (cfg\<lparr>TIME_OFFSET := PosInf\<rparr>) env = Inl OverflowError"
    and "sun_times_fallback (cfg\<lparr>TIME_OFFSET := NaN\<rparr>) env = Inl ValueError"
proof -
  from sun_times_row [OF assms] obtain sr ss h1 m1 h2 m2 t1 t2 where
    row: "map_of sun_times (now_month env) = Some (sr, ss)"
      "parse_hm sr = Inr (h1, m1)" "parse_hm ss = Inr (h2, m2)"
      "mk_time h1 m1 = Inr t1" "mk_time h2 m2 = Inr t2"
    by blast
  show "sun_times_fallback (cfg\<lparr>TIME_OFFSET := PosInf\<rparr>) env = Inl OverflowError"
    by (simp add: sun_times_fallback_unfold [OF row] apply_offset_fallback_def
        timedelta_hours_def)
  show "sun_times_fallback (cfg\<lparr>TIME_OFFSET := NaN\<rparr>) env = Inl ValueError"
    by (simp add: sun_times_fallback_unfold [OF row] apply_offset_fallback_def
        timedelta_hours_def)
qed

lemma june_month: "1 \<le> now_month offline_june" "now_month offline_june \<le> 12"
  "1 \<le> now_month answering_june" "now_month answering_june \<le> 12"
  by (simp_all add: offline_june_def answering_june_def)








subsection \<open>The phase resolver\<close>

text \<open>
  Claim C1. For a schedule whose four start instants are ordered
  (morning \<open>\<le>\<close> day \<open>\<le>\<close> evening \<open>\<le>\<close> night) and every instant \<open>now\<close>,
  \<^verbatim>\<open>get_current_phase\<close> answers night before the morning start, morning from the
  morning start up to the day start, day from the day start up to the evening start,
  evening from the evening start up to the night start, and night from the night start
  on: each interval is closed on the left, so a tie goes to the later phase.
\<close>

theorem get_current_phase_intervals:
  assumes "calculate_phase_times cfg env = Inr pt"
    and "map_of pt ''morning'' = Some m" and "map_of pt ''day'' = Some d"
    and "map_of pt ''evening'' = Some e" and "map_of pt ''night'' = Some n"
    and "dt_le m d" and "dt_le d e" and "dt_le e n"
  shows "(dt_lt now m \<longrightarrow> get_current_phase cfg env now = Inr ''night'') \<and>
         (dt_le m now \<and> dt_lt now d \<longrightarrow> get_current_phase cfg env now = Inr ''morning'') \<and>
         (dt_le d now \<and> dt_lt now e \<longrightarrow> get_current_phase cfg env now = Inr ''day'') \<and>
         (dt_le e now \<and> dt_lt now n \<longrightarrow> get_current_phase cfg env now = Inr ''evening'') \<and>
         (dt_le n now \<longrightarrow> get_current_phase cfg env now = Inr ''night'')"
proof -
  have r: "get_current_phase cfg env now =
           Inr (if dt_lt now m then ''night''
                else if dt_lt now d then ''morning''
                else if dt_lt now e then ''day''
                else if dt_lt now n then ''evening'' else ''night'')"
    using assms(1) resolve_phase_cases [OF assms(2-5)] by (simp add: get_current_phase_def)
  show ?thesis
    using assms(6-8) unfolding r by (auto simp: dt_lt_def dt_le_def)
qed

theorem get_current_phase_intervals_witness:
  "get_current_phase default_config offline_june (at_clock 0 12 0) = Inr ''day'' \<and>
   get_current_phase default_config offline_june (at_clock 0 8 30) = Inr ''day'' \<and>
   get_current_phase default_config offline_june (at_clock 0 3 0) = Inr ''night''"
proof -
  have le: "dt_le (at_clock 0 5 30) (at_clock 0 8 30)" "dt_le (at_clock 0 8 30) (at_clock 0 20 0)"
    "dt_le (at_clock 0 20 0) (at_clock 0 22 0)"
    by (simp_all add: dt_le_def utc_def at_clock_def HOUR_def MINUTE_def DAY_def)
  note th = get_current_phase_intervals [OF schedule_june schedule_june_keys le]
  show ?thesis
    using th [of "at_clock 0 12 0"] th [of "at_clock 0 8 30"] th [of "at_clock 0 3 0"]
    by (simp add: dt_le_def dt_lt_def utc_def at_clock_def HOUR_def MINUTE_def DAY_def)
qed

text \<open>
  Claim C5. For every instant \<open>now\<close>, \<^verbatim>\<open>get_current_phase\<close> returns one of the four
  phases, whatever the order of the four start instants (equal or inverted starts do not
  make it fail). On a schedule with ordered starts it is monotonic: for instants
  \<open>now1 < now2\<close> from the morning start on, the phase of \<open>now1\<close> comes before or is
  the phase of \<open>now2\<close> in the order morning, day, evening, night; and for any two instants
  \<open>now1 < now2\<close> the two phases lie in this order on the walk night, morning, day,
  evening, night through the day.
\<close>

theorem get_current_phase_total_monotonic:
  assumes "calculate_phase_times cfg env = Inr pt"
    and "map_of pt ''morning'' = Some m" and "map_of pt ''day'' = Some d"
    and "map_of pt ''evening'' = Some e" and "map_of pt ''night'' = Some n"
  shows "(\<exists>p. get_current_phase cfg env now = Inr p \<and> p \<in> set phases) \<and>
         (dt_le m d \<and> dt_le d e \<and> dt_le e n \<and> dt_le m now1 \<and> dt_lt now1 now2 \<longrightarrow>
            (\<exists>p1 p2. get_current_phase cfg env now1 = Inr p1 \<and>
                     get_current_phase cfg env now2 = Inr p2 \<and>
                     phase_index p1 \<le> phase_index p2)) \<and>
         (dt_le m d \<and> dt_le d e \<and> dt_le e n \<and> dt_lt now1 now2 \<longrightarrow>
            (\<exists>i j. i \<le> j \<and> j < length day_cycle \<and>
                   get_current_phase cfg env now1 = Inr (day_cycle ! i) \<and>
                   get_current_phase cfg env now2 = Inr (day_cycle ! j)))"
proof -
  have r: "\<And>t. get_current_phase cfg env t =
           Inr (if dt_lt t m then ''night''
                else if dt_lt t d then ''morning''
                else if dt_lt t e then ''day''
                else if dt_lt t n then ''evening'' else ''night'')"
    using assms(1) resolve_phase_cases [OF assms(2-5)] by (simp add: get_current_phase_def)
  have total: "\<exists>p. get_current_phase cfg env now = Inr p \<and> p \<in> set phases"
    unfolding r by (simp add: phases_def)
  have mono: "dt_le m d \<and> dt_le d e \<and> dt_le e n \<and> dt_le m now1 \<and> dt_lt now1 now2 \<longrightarrow>
            (\<exists>p1 p2. get_current_phase cfg env now1 = Inr p1 \<and>
                     get_current_phase cfg env now2 = Inr p2 \<and>
                     phase_index p1 \<le> phase_index p2)"
    unfolding r by (auto simp: phase_index_simps dt_lt_def dt_le_def)
  have cyc: "dt_le m d \<and> dt_le d e \<and> dt_le e n \<and> dt_lt now1 now2 \<longrightarrow>
            (\<exists>i j. i \<le> j \<and> j < length day_cycle \<and>
                   get_current_phase cfg env now1 = Inr (day_cycle ! i) \<and>
                   get_current_phase cfg env now2 = Inr (day_cycle ! j))"
  proof
    assume o: "dt_le m d \<and> dt_le d e \<and> dt_le e n \<and> dt_lt now1 now2"
    define seg where "seg t = (if dt_lt t m then 0 else if dt_lt t d then 1
         else if dt_lt t e then 2 else if dt_lt t n then 3 else (4::nat))" for t
    have s: "\<And>t. get_current_phase cfg env t = Inr (day_cycle ! seg t)"
      unfolding r seg_def by (simp add: day_cycle_eq)
    have "seg now1 \<le> seg now2"
      using o unfolding seg_def by (auto simp: dt_lt_def dt_le_def)
    moreover have "seg now2 < length day_cycle"
      unfolding seg_def by (simp add: day_cycle_eq)
    ultimately show "\<exists>i j. i \<le> j \<and> j < length day_cycle \<and>
                   get_current_phase cfg env now1 = Inr (day_cycle ! i) \<and>
                   get_current_phase cfg env now2 = Inr (day_cycle ! j)"
      using s by blast
  qed
  from total mono cyc show ?thesis by blast
qed

theorem get_current_phase_total_monotonic_witness:
  "(\<exists>p. get_current_phase default_config offline_june (at_clock 0 12 0) = Inr p \<and>
        p \<in> set phases) \<and>
   (\<exists>p1 p2. get_current_phase default_config offline_june (at_clock 0 6 0) = Inr p1 \<and>
            get_current_phase default_config offline_june (at_clock 0 21 0) = Inr p2 \<and>
            phase_index p1 \<le> phase_index p2)"
proof -
  have o: "dt_le (at_clock 0 5 30) (at_clock 0 8 30) \<and> dt_le (at_clock 0 8 30) (at_clock 0 20 0) \<and>
      dt_le (at_clock 0 20 0) (at_clock 0 22 0) \<and> dt_le (at_clock 0 5 30) (at_clock 0 6 0) \<and>
      dt_lt (at_clock 0 6 0) (at_clock 0 21 0)"
    by (simp add: dt_le_def dt_lt_def utc_def at_clock_def HOUR_def MINUTE_def DAY_def)
  from get_current_phase_total_monotonic [OF schedule_june schedule_june_keys,
      of "at_clock 0 12 0" "at_clock 0 6 0" "at_clock 0 21 0"] o
  show ?thesis by blast
qed

subsection \<open>Sunrise and sunset\<close>

text \<open>
  Claim C10, as stated, fails: with a \<open>TIME_OFFSET\<close> of three hours the June pair of the
  fallback is 07:30 of today and 00:00 of tomorrow, so it is not on one day; and with an
  infinite \<open>TIME_OFFSET\<close> the fallback raises and returns no pair.
\<close>

theorem fallback_pair_crosses_midnight:
  "sun_times_fallback (default_config\<lparr>TIME_OFFSET := Finite 3\<rparr>) offline_june =
     Inr (at_clock 0 7 30, at_clock 1 0 0) \<and>
   date_of (wall (at_clock 0 7 30)) = 0 \<and> date_of (wall (at_clock 1 0 0)) = 1 \<and>
   sun_times_fallback (default_config\<lparr>TIME_OFFSET := PosInf\<rparr>) offline_june =
     Inl OverflowError"
proof -
  have d: "date_of (wall (at_clock 0 7 30)) = 0" "date_of (wall (at_clock 1 0 0)) = 1"
    by (simp_all add: date_of_def at_clock_def HOUR_def MINUTE_def DAY_def)
  have "sun_times_fallback (default_config\<lparr>TIME_OFFSET := PosInf\<rparr>) offline_june =
     Inl OverflowError"
    by (rule fallback_bad_offset(1) [OF june_month(1,2)])
  with d fallback_three_hours show ?thesis by simp
qed

text \<open>
  Claim C10, amended. For every month 1 to 12 the fallback branch of \<^verbatim>\<open>get_sun_times\<close>
  finds the month in its table, both clock times of the entry parse, and the sunrise clock
  time is strictly earlier than the sunset clock time, both on today's date. When
  \<open>TIME_OFFSET\<close> is a number of hours that makes a \<^verbatim>\<open>timedelta\<close> and, if not zero,
  keeps both instants in the range of \<^verbatim>\<open>datetime\<close>, the fallback returns the pair of the
  two instants with the offset added; and whenever the fallback returns a pair, its sunrise
  is strictly before its sunset, the common shift keeping the strict order. The shifted
  pair need not lie on one calendar day.
\<close>

theorem fallback_month_table:
  assumes "1 \<le> now_month env" and "now_month env \<le> 12"
  shows "\<exists>sr ss h1 m1 h2 m2 t1 t2.
           map_of sun_times (now_month env) = Some (sr, ss) \<and>
           parse_hm sr = Inr (h1, m1) \<and> parse_hm ss = Inr (h2, m2) \<and>
           mk_time h1 m1 = Inr t1 \<and> mk_time h2 m2 = Inr t2 \<and> t1 < t2 \<and>
           date_of (combine (now_date env) t1) = now_date env \<and>
           date_of (combine (now_date env) t2) = now_date env \<and>
           (\<forall>off. timedelta_hours (TIME_OFFSET cfg) = Inr off \<and>
                  (TIME_OFFSET cfg \<noteq> Finite 0 \<longrightarrow>
                     in_range (combine (now_date env) t1 + off) \<and>
                     in_range (combine (now_date env) t2 + off)) \<longrightarrow>
              (\<exists>sunrise sunset.
                 sun_times_fallback cfg env = Inr (sunrise, sunset) \<and>
                 dt_lt sunrise sunset \<and>
                 wall sunrise = combine (now_date env) t1 + off \<and>
                 wall sunset = combine (now_date env) t2 + off)) \<and>
           (\<forall>sunrise sunset.
              sun_times_fallback cfg env = Inr (sunrise, sunset) \<longrightarrow> dt_lt sunrise sunset)"
proof -
  from sun_times_row [OF assms] obtain sr ss h1 m1 h2 m2 t1 t2 where
    row: "map_of sun_times (now_month env) = Some (sr, ss)"
      "parse_hm sr = Inr (h1, m1)" "parse_hm ss = Inr (h2, m2)"
      "mk_time h1 m1 = Inr t1" "mk_time h2 m2 = Inr t2"
    and ord: "0 \<le> t1" "t1 < t2" "t2 < DAY"
    by blast
  have d: "date_of (combine (now_date env) t1) = now_date env"
    "date_of (combine (now_date env) t2) = now_date env"
    using ord by (simp_all add: date_of_combine)
  have shifted: "\<forall>off. timedelta_hours (TIME_OFFSET cfg) = Inr off \<and>
                  (TIME_OFFSET cfg \<noteq> Finite 0 \<longrightarrow>
                     in_range (combine (now_date env) t1 + off) \<and>
                     in_range (combine (now_date env) t2 + off)) \<longrightarrow>
              (\<exists>sunrise sunset.
                 sun_times_fallback cfg env = Inr (sunrise, sunset) \<and>
                 dt_lt sunrise sunset \<and>
                 wall sunrise = combine (now_date env) t1 + off \<and>
                 wall sunset = combine (now_date env) t2 + off)"
  proof (intro allI impI)
    fix off
    assume h: "timedelta_hours (TIME_OFFSET cfg) = Inr off \<and>
                  (TIME_OFFSET cfg \<noteq> Finite 0 \<longrightarrow>
                     in_range (combine (now_date env) t1 + off) \<and>
                     in_range (combine (now_date env) t2 + off))"
    let ?a = "dt_add (replace_tzinfo (combine (now_date env) t1) (local_timezone env)) off"
    let ?b = "dt_add (replace_tzinfo (combine (now_date env) t2) (local_timezone env)) off"
    have val: "sun_times_fallback cfg env = Inr (?a, ?b)"
      using h by (intro sun_times_fallback_eq [OF row]) simp_all
    have lt: "dt_lt ?a ?b" by (rule dt_lt_shift [OF ord(2)])
    have w: "wall ?a = combine (now_date env) t1 + off"
      "wall ?b = combine (now_date env) t2 + off"
      by (simp_all add: dt_add_def replace_tzinfo_def)
    from val lt w
    show "\<exists>sunrise sunset.
                 sun_times_fallback cfg env = Inr (sunrise, sunset) \<and>
                 dt_lt sunrise sunset \<and>
                 wall sunrise = combine (now_date env) t1 + off \<and>
                 wall sunset = combine (now_date env) t2 + off"
      by blast
  qed
  have ret: "\<forall>sunrise sunset.
              sun_times_fallback cfg env = Inr (sunrise, sunset) \<longrightarrow> dt_lt sunrise sunset"
    using fallback_pair_lt by blast
  from row ord(2) d shifted ret show ?thesis by blast
qed

theorem fallback_month_table_witness:
  "sun_times_fallback default_config offline_june = Inr (at_clock 0 5 30, at_clock 0 22 0) \<and>
   dt_lt (at_clock 0 5 30) (at_clock 0 22 0)"
proof -
  have m: "1 \<le> now_month offline_june" "now_month offline_june \<le> 12"
    by (simp_all add: offline_june_def)
  from fallback_month_table [OF m, of default_config]
  have "\<forall>sunrise sunset.
          sun_times_fallback default_config offline_june = Inr (sunrise, sunset) \<longrightarrow>
          dt_lt sunrise sunset"
    by blast
  then show ?thesis using fallback_june by simp
qed




subsection \<open>The phase calculator\<close>






subsection \<open>The cover change and the state file\<close>

text \<open>
  Claim C2. When \<^verbatim>\<open>change_cover(p)\<close> finds a saved phase other than \<open>p\<close> (or none),
  its upload returns and its state save succeeds, then the state file records \<open>p\<close>, and an
  immediate second \<^verbatim>\<open>change_cover(p)\<close> changes nothing, whatever its surroundings:
  across the two invocations \<^verbatim>\<open>change_playlist_cover\<close> is called once and the image is
  uploaded once.
\<close>

theorem change_cover_idempotent:
  assumes "phase \<in> set phases"
    and "load_state (state_file w) \<noteq> JStr phase"
    and "spotify env1 = UploadReturns"
    and "calculate_phase_times cfg (save_sun (saving env1)) = Inr pt"
    and "writing (saving env1) = WriteOk"
  shows "\<exists>w1. change_cover cfg env1 phase w = Inr w1 \<and>
              load_state (state_file w1) = JStr phase \<and>
              change_cover cfg env2 phase w1 = Inr w1 \<and>
              upload_calls w1 = upload_calls w + 1 \<and>
              apply_calls w1 = apply_calls w + 1"
proof -
  from get_image_path_phase [OF assms(1)] obtain path where
    p: "get_image_path cfg phase = Inr path" by blast
  let ?w1 = "save_state cfg (saving env1) phase
               (w\<lparr>apply_calls := apply_calls w + 1, upload_calls := upload_calls w + 1\<rparr>)"
  have first: "change_cover cfg env1 phase w = Inr ?w1"
    using assms(2,3) p by (simp add: change_cover_def change_playlist_cover_def Let_def)
  have saved: "load_state (state_file ?w1) = JStr phase"
    using assms(4,5) by (simp add: save_state_def Let_def load_state_saved)
  have second: "change_cover cfg env2 phase ?w1 = Inr ?w1"
    using saved by (simp add: change_cover_def Let_def)
  have counts: "upload_calls ?w1 = upload_calls w + 1" "apply_calls ?w1 = apply_calls w + 1"
    using assms(4,5) by (simp_all add: save_state_def Let_def)
  from first saved second counts show ?thesis by blast
qed

theorem change_cover_idempotent_witness:
  "\<exists>w1. change_cover default_config upload_ok ''day'' fresh_world = Inr w1 \<and>
        load_state (state_file w1) = JStr ''day'' \<and>
        change_cover default_config upload_fails ''day'' w1 = Inr w1 \<and>
        upload_calls w1 = 1 \<and> apply_calls w1 = 1"
proof -
  have p: "''day'' \<in> set phases" by (simp add: phases_def)
  have l: "load_state (state_file fresh_world) \<noteq> JStr ''day''"
    by (simp add: fresh_world_def load_state_def)
  have u: "spotify upload_ok = UploadReturns" by (simp add: upload_ok_def)
  have c: "calculate_phase_times default_config (save_sun (saving upload_ok)) =
             Inr [(''morning'', at_clock 0 5 30), (''day'', at_clock 0 8 30),
                  (''evening'', at_clock 0 20 0), (''night'', at_clock 0 22 0)]"
    by (simp add: upload_ok_def good_save_def schedule_june)
  have w: "writing (saving upload_ok) = WriteOk" by (simp add: upload_ok_def good_save_def)
  from change_cover_idempotent [OF p l u c w, of upload_fails]
  show ?thesis by (simp add: fresh_world_def)
qed

text \<open>
  Claim C7. When any step of the upload path raises, \<^verbatim>\<open>change_playlist_cover\<close> returns
  False and leaves the state file alone, and \<^verbatim>\<open>change_cover\<close> for one of the four
  phases returns without writing the state file: the saved phase is what it was before.
\<close>

theorem change_cover_failure_keeps_state:
  assumes "outcome \<noteq> UploadReturns" and "spotify env = outcome" and "phase \<in> set phases"
  shows "fst (change_playlist_cover outcome playlist_id image_path w) = False \<and>
         state_file (snd (change_playlist_cover outcome playlist_id image_path w)) = state_file w \<and>
         (\<exists>w1. change_cover cfg env phase w = Inr w1 \<and>
               state_file w1 = state_file w \<and>
               load_state (state_file w1) = load_state (state_file w))"
proof -
  have a: "fst (change_playlist_cover outcome playlist_id image_path w) = False"
    using assms(1) by (cases outcome) (simp_all add: change_playlist_cover_def Let_def)
  have b: "state_file (snd (change_playlist_cover outcome playlist_id image_path w)) = state_file w"
    by (cases outcome) (simp_all add: change_playlist_cover_def Let_def)
  from get_image_path_phase [OF assms(3)] obtain path where
    p: "get_image_path cfg phase = Inr path" by blast
  have c: "\<exists>w1. change_cover cfg env phase w = Inr w1 \<and> state_file w1 = state_file w"
    using assms(1,2) p
    by (cases outcome) (simp_all add: change_cover_def change_playlist_cover_def Let_def)
  from a b c show ?thesis by auto
qed

theorem change_cover_failure_keeps_state_witness:
  "fst (change_playlist_cover UploadRaises ''playlist'' ''images/evening.jpg'' saved_morning)
     = False \<and>
   (\<exists>w1. change_cover default_config upload_fails ''evening'' saved_morning = Inr w1 \<and>
         state_file w1 = state_file saved_morning \<and>
         load_state (state_file w1) = JStr ''morning'')"
proof -
  have o: "UploadRaises \<noteq> UploadReturns" by simp
  have u: "spotify upload_fails = UploadRaises" by (simp add: upload_fails_def)
  have p: "''evening'' \<in> set phases" by (simp add: phases_def)
  have l: "load_state (state_file saved_morning) = JStr ''morning''"
    by (simp add: saved_morning_def load_state_saved)
  from change_cover_failure_keeps_state [OF o u p,
      of "''playlist''" "''images/evening.jpg''" saved_morning default_config] l
  show ?thesis by auto
qed

subsection \<open>Override input\<close>

text \<open>
  Claim C8, as stated, fails: parsed at 10:00, the override
  \<^verbatim>\<open>"06:00,09:00,18:00,21:00"\<close> gives morning and day on the next day and evening and
  night on the same day, so the four instants in the order of the phases are not
  non-decreasing.
\<close>

theorem parse_debug_override_unordered:
  "(case parse_debug (\<lambda>k. 10 * HOUR) (Some ''06:00,09:00,18:00,21:00'') of
      (ok, None) \<Rightarrow> False
    | (ok, Some d) \<Rightarrow> ok \<and> map fst d = phases \<and> \<not> sorted (map (\<lambda>(p, t). naive_value t) d))"
  unfolding parse_debug_at_ten by (simp add: phases_def naive_value_def HOUR_def)

text \<open>
  Claim C8, amended. For every parse-time instant \<open>now\<close> the override
  \<^verbatim>\<open>"06:00,09:00,18:00,21:00"\<close> is accepted and gives four entries, for morning, day,
  evening and night in this order, at today's 06:00, 09:00, 18:00 and 21:00, each moved to
  tomorrow's same clock time when it is already before \<open>now\<close>. The four instants are in
  non-decreasing order exactly when \<open>now\<close> is not after today's 06:00 or is after today's
  21:00, that is when all four fall on the same day.
\<close>

theorem parse_debug_override:
  "parse_debug (\<lambda>k. now) (Some ''06:00,09:00,18:00,21:00'') =
     (True, Some
       [(''morning'', Naive (if combine (date_of now) (6 * HOUR) < now
                            then combine (date_of now + 1) (6 * HOUR)
                            else combine (date_of now) (6 * HOUR))),
        (''day'', Naive (if combine (date_of now) (9 * HOUR) < now
                        then combine (date_of now + 1) (9 * HOUR)
                        else combine (date_of now) (9 * HOUR))),
        (''evening'', Naive (if combine (date_of now) (18 * HOUR) < now
                            then combine (date_of now + 1) (18 * HOUR)
                            else combine (date_of now) (18 * HOUR))),
        (''night'', Naive (if combine (date_of now) (21 * HOUR) < now
                          then combine (date_of now + 1) (21 * HOUR)
                          else combine (date_of now) (21 * HOUR)))]) \<and>
   (case parse_debug (\<lambda>k. now) (Some ''06:00,09:00,18:00,21:00'') of
      (ok, None) \<Rightarrow> False
    | (ok, Some d) \<Rightarrow>
        sorted (map (\<lambda>(p, t). naive_value t) d) =
          (now \<le> combine (date_of now) (6 * HOUR) \<or> combine (date_of now) (21 * HOUR) < now))"
proof -
  have b: "date_of now * DAY \<le> now \<and> now < date_of now * DAY + DAY"
    by (rule date_of_bounds)
  show ?thesis
    unfolding parse_debug_override_eq
    using b by (auto simp: naive_value_def combine_def HOUR_def DAY_def)
qed

theorem parse_debug_override_witness:
  "parse_debug (\<lambda>k. 5 * HOUR) (Some ''06:00,09:00,18:00,21:00'') =
     (True, Some [(''morning'', Naive (6 * HOUR)), (''day'', Naive (9 * HOUR)),
                  (''evening'', Naive (18 * HOUR)), (''night'', Naive (21 * HOUR))])"
proof -
  have d: "date_of (5 * HOUR) = 0"
    by (simp add: date_of_def HOUR_def DAY_def)
  have c: "combine 0 (6 * HOUR) = 6 * HOUR" "combine 0 (9 * HOUR) = 9 * HOUR"
    "combine 0 (18 * HOUR) = 18 * HOUR" "combine 0 (21 * HOUR) = 21 * HOUR"
    by (simp_all add: combine_def)
  have n: "\<not> 6 * HOUR < 5 * HOUR" "\<not> 9 * HOUR < 5 * HOUR"
    "\<not> 18 * HOUR < 5 * HOUR" "\<not> 21 * HOUR < 5 * HOUR"
    by (simp_all add: HOUR_def)
  from parse_debug_override [of "5 * HOUR"] show ?thesis
    unfolding d c using n by simp
qed

subsection \<open>The daily recomputation\<close>

text \<open>
  Claim C9, as stated, fails: a run started at 10:00 of day 0 with the override above has a
  morning job pending for 06:00 of day 1; the recomputation at 00:01 of day 1, before that
  instant, removes it and puts a morning job for 06:00 of day 2 in its place.
\<close>

theorem recalculation_replaces_pending_job:
  "(case schedule_today_changes override_config offline_june (at_clock 0 10 0) (at_clock 0 10 0)
           Map.empty of
      Inl err \<Rightarrow> False
    | Inr s0 \<Rightarrow>
        (case calculate_times_for_tomorrow override_config offline_june (at_clock 1 0 1)
                (at_clock 1 0 1) s0 of
           Inl err \<Rightarrow> False
         | Inr s1 \<Rightarrow>
             map_option run_date (s0 ''morning'') = Some (at_clock 1 6 0) \<and>
             dt_lt (at_clock 1 0 1) (at_clock 1 6 0) \<and>
             map_option run_date (s1 ''morning'') = Some (at_clock 2 6 0)))"
proof -
  show ?thesis
    by (simp add: schedule_today_changes_def calculate_times_for_tomorrow_def override_today
        override_tomorrow schedule_loop_phases [OF override_keys] clock_order
        add_job_def remove_all_jobs_def Let_def)
qed

text \<open>
  Claim C9, amended. \<^verbatim>\<open>calculate_times_for_tomorrow\<close> first clears the whole job table,
  so no earlier job stays, pending or not. When it returns, the table holds exactly: the
  recalculate job at 23:00 of the following day, and for each of the four phases whose
  newly derived start is strictly after now, one job at that start; nothing of the table
  it found remains.
\<close>

theorem calculate_times_for_tomorrow_table:
  assumes "tomorrow_phases_of cfg env (date_of (wall now) + 1) = Inr tp"
    and "map_of tp ''morning'' = Some m" and "map_of tp ''day'' = Some d"
    and "map_of tp ''evening'' = Some e" and "map_of tp ''night'' = Some n"
  shows "calculate_times_for_tomorrow cfg env now now_sched s =
     Inr (\<lambda>i. if i = ''recalculate''
                 then Some \<lparr>func = Calculate_times_for_tomorrow,
                            run_date = replace_tzinfo (combine (date_of (wall now) + 1) (23 * HOUR))
                                         (utcoffset now),
                            misfire_grace_time = 3600\<rparr>
               else if i = ''night'' \<and> dt_lt now_sched n
                 then Some \<lparr>func = Change_cover_job ''night'', run_date = n,
                            misfire_grace_time = 3600\<rparr>
               else if i = ''evening'' \<and> dt_lt now_sched e
                 then Some \<lparr>func = Change_cover_job ''evening'', run_date = e,
                            misfire_grace_time = 3600\<rparr>
               else if i = ''day'' \<and> dt_lt now_sched d
                 then Some \<lparr>func = Change_cover_job ''day'', run_date = d,
                            misfire_grace_time = 3600\<rparr>
               else if i = ''morning'' \<and> dt_lt now_sched m
                 then Some \<lparr>func = Change_cover_job ''morning'', run_date = m,
                            misfire_grace_time = 3600\<rparr>
               else None)"
  using assms(1) schedule_loop_phases [OF assms(2-5)]
  by (simp add: calculate_times_for_tomorrow_def Let_def remove_all_jobs_def add_job_def fun_eq_iff)

theorem calculate_times_for_tomorrow_table_witness:
  "(case calculate_times_for_tomorrow override_config offline_june (at_clock 1 0 1)
          (at_clock 1 0 1) Map.empty of
      Inl err \<Rightarrow> False
    | Inr s1 \<Rightarrow>
        map_option run_date (s1 ''recalculate'') = Some (at_clock 2 23 0) \<and>
        map_option run_date (s1 ''evening'') = Some (at_clock 1 18 0) \<and>
        map_option run_date (s1 ''morning'') = Some (at_clock 2 6 0) \<and>
        s1 ''cleanup'' = None)"
  using calculate_times_for_tomorrow_table [OF override_tomorrow override_keys,
      of "at_clock 1 0 1" "at_clock 1 0 1" Map.empty]
  by (simp add: clock_order recalc_time)

end
